theory Spec2Isabelle
  imports Complex_Main "HOL-Library.Word"
begin

unbundle bit_operations_syntax

section \<open>The ST7789 parallel display driver of Tufty 2350\<close>

text \<open>
  A shallow embedding of \<^verbatim>\<open>st7789.cpp\<close> (namespace \<^verbatim>\<open>pimoroni\<close>, class
  \<^verbatim>\<open>ST7789\<close>). The driver talks to hardware only through calls of the Pico SDK
  (GPIO, PWM, DMA, PIO, timer). Each such call is recorded, in program order, as an
  \<open>event\<close> of a trace kept in the driver state; the members of the class and the static
  back-buffer are fields of the same state.
\<close>

subsection \<open>Data\<close>

type_synonym u8 = "8 word"
type_synonym u16 = "16 word"
type_synonym u32 = "32 word"

text \<open>The three GPIO lines the driver owns: data/command select, chip select, backlight.\<close>

datatype pin = DC | CS | BL

datatype gpio_function = GPIO_FUNC_SIO | GPIO_FUNC_PWM

text \<open>
  \<^verbatim>\<open>st_dma\<close> carries opcode and parameter bytes, \<^verbatim>\<open>pd_st_dma\<close> the bulk pixel
  payload; each feeds its own PIO state machine.
\<close>

datatype dma_channel = ST_DMA | PD_ST_DMA

datatype pio_sm = PARALLEL_SM | PARALLEL_PD_SM

text \<open>What a DMA read address points at: a byte buffer of the caller, or the back-buffer.\<close>

datatype dma_source = Bytes "u8 list" | Backbuffer_addr

text \<open>
  One constructor per SDK call the driver makes. The polling loops
  \<^verbatim>\<open>while (dma_channel_is_busy(ch)) ;\<close> and
  \<^verbatim>\<open>while (!pio_sm_is_tx_fifo_empty(pio, sm)) ;\<close> spin on a hardware flag
  the program cannot change; each is one blocking event, like the SDK's own
  \<^verbatim>\<open>dma_channel_wait_for_finish_blocking\<close>: the event stands for the wait having
  ended. Whether the hardware ever raises the flag is outside this model, so nothing here
  says that a wait ends. Two events mark places in the program rather than SDK calls:
  \<open>Enter_command\<close> is the entry of \<^verbatim>\<open>ST7789::command\<close> with its arguments, and
  \<open>Backbuffer_fill\<close> is the start of the pixel conversion loop of
  \<^verbatim>\<open>ST7789::update\<close>, the only code that stores into the back-buffer.
\<close>

datatype event =
    Gpio_set_function pin gpio_function
  | Gpio_set_dir pin bool
  | Gpio_put pin bool
  | Pwm_set_wrap pin nat
  | Pwm_init pin bool
  | Pwm_set_gpio_level pin u16
  | Sleep_ms nat
  | Dma_wait_while_busy dma_channel
  | Dma_channel_set_trans_count dma_channel nat bool
  | Dma_channel_set_read_addr dma_channel dma_source bool
  | Dma_channel_wait_for_finish_blocking dma_channel
  | Pio_wait_tx_fifo_empty pio_sm
  | Pio_sm_set_clkdiv pio_sm u32
  | Enter_command u8 nat "u8 list option"
  | Backbuffer_fill

text \<open>
  The driver state: the two flags of the class, the static array
  \<^verbatim>\<open>uint16_t backbuffer[160 * 240]\<close>, the duty level last written to the backlight
  PWM, and the trace of SDK calls so far.
\<close>

record driver =
  display_on :: bool
  display_sleep :: bool
  backbuffer :: "u16 list"
  bl_level :: u16
  trace :: "event list"

subsection \<open>Constants\<close>

text \<open>The opcodes of \<^verbatim>\<open>enum reg\<close> that the driver sends.\<close>

definition SWRESET :: u8 where "SWRESET = 0x01"
definition TEON :: u8 where "TEON = 0x35"
definition MADCTL :: u8 where "MADCTL = 0x36"
definition COLMOD :: u8 where "COLMOD = 0x3A"
definition RAMCTRL :: u8 where "RAMCTRL = 0xB0"
definition GCTRL :: u8 where "GCTRL = 0xB7"
definition VCOMS :: u8 where "VCOMS = 0xBB"
definition LCMCTRL :: u8 where "LCMCTRL = 0xC0"
definition VDVVRHEN :: u8 where "VDVVRHEN = 0xC2"
definition VRHS :: u8 where "VRHS = 0xC3"
definition VDVS :: u8 where "VDVS = 0xC4"
definition FRCTRL2 :: u8 where "FRCTRL2 = 0xC6"
definition PWCTRL1 :: u8 where "PWCTRL1 = 0xD0"
definition PORCTRL :: u8 where "PORCTRL = 0xB2"
definition GMCTRP1 :: u8 where "GMCTRP1 = 0xE0"
definition GMCTRN1 :: u8 where "GMCTRN1 = 0xE1"
definition SLPIN :: u8 where "SLPIN = 0x10"
definition SLPOUT :: u8 where "SLPOUT = 0x11"
definition DISPON :: u8 where "DISPON = 0x29"
definition RAMWR :: u8 where "RAMWR = 0x2C"
definition INVON :: u8 where "INVON = 0x21"
definition CASET :: u8 where "CASET = 0x2A"
definition RASET :: u8 where "RASET = 0x2B"

text \<open>The bits of \<^verbatim>\<open>enum MADCTL\<close> that \<^verbatim>\<open>init\<close> combines.\<close>

definition ROW_ORDER :: u8 where "ROW_ORDER = 0x80"
definition SWAP_XY :: u8 where "SWAP_XY = 0x20"
definition SCAN_ORDER :: u8 where "SCAN_ORDER = 0x10"

text \<open>
  Modelled from the spec: the header \<^verbatim>\<open>st7789.hpp\<close>, which declares the members
  \<^verbatim>\<open>width\<close> and \<^verbatim>\<open>height\<close>, is not among the sources. The spec gives the
  framebuffer as 160 by 120 pixels of four bytes, and the bindings export the same numbers
  (\<^verbatim>\<open>WIDTH\<close> 160, \<^verbatim>\<open>HEIGHT\<close> 120, buffer length \<^verbatim>\<open>160 * 120 * 4\<close>).
\<close>

definition width :: nat where "width = 160"
definition height :: nat where "height = 120"

text \<open>The declared size of the static back-buffer, \<^verbatim>\<open>backbuffer[160 * 240]\<close>.\<close>

definition backbuffer_size :: nat where "backbuffer_size = 160 * 240"

text \<open>\<^verbatim>\<open>MHZ\<close> is the Pico SDK's macro for one million.\<close>

definition MHZ :: u32 where "MHZ = 1000000"

definition max_pio_clk :: u32 where "max_pio_clk = 50 * MHZ"

subsection \<open>SDK calls\<close>

definition emit :: "event \<Rightarrow> driver \<Rightarrow> driver" where
  "emit e s = s\<lparr>trace := trace s @ [e]\<rparr>"

definition gpio_put :: "pin \<Rightarrow> bool \<Rightarrow> driver \<Rightarrow> driver" where
  "gpio_put p v = emit (Gpio_put p v)"

definition sleep_ms :: "nat \<Rightarrow> driver \<Rightarrow> driver" where
  "sleep_ms n = emit (Sleep_ms n)"

definition pwm_set_gpio_level :: "pin \<Rightarrow> u16 \<Rightarrow> driver \<Rightarrow> driver" where
  "pwm_set_gpio_level p v s =
     (let s = emit (Pwm_set_gpio_level p v) s in
      if p = BL then s\<lparr>bl_level := v\<rparr> else s)"

subsection \<open>The transfer engine\<close>

text \<open>
  \<^verbatim>\<open>write_blocking_dma\<close>: wait for the command channel, set the count without
  triggering, set the read address with the trigger.
\<close>

definition write_blocking_dma :: "dma_source \<Rightarrow> nat \<Rightarrow> driver \<Rightarrow> driver" where
  "write_blocking_dma src len s =
     (let s = emit (Dma_wait_while_busy ST_DMA) s;
          s = emit (Dma_channel_set_trans_count ST_DMA len False) s
      in emit (Dma_channel_set_read_addr ST_DMA src True) s)"

definition write_blocking_parallel :: "dma_source \<Rightarrow> nat \<Rightarrow> driver \<Rightarrow> driver" where
  "write_blocking_parallel src len s =
     (let s = write_blocking_dma src len s;
          s = emit (Dma_channel_wait_for_finish_blocking ST_DMA) s
      in emit (Pio_wait_tx_fifo_empty PARALLEL_SM) s)"

text \<open>
  \<^verbatim>\<open>command(command, len, data)\<close>; a null \<^verbatim>\<open>data\<close> pointer is \<open>None\<close>. A low
  level on \<open>CS\<close> selects the panel, a low level on \<open>DC\<close> means command mode.
\<close>

definition command :: "u8 \<Rightarrow> nat \<Rightarrow> u8 list option \<Rightarrow> driver \<Rightarrow> driver" where
  "command cmd len data s =
     (let s = emit (Enter_command cmd len data) s;
          s = gpio_put DC False s;
          s = gpio_put CS False s;
          s = write_blocking_parallel (Bytes [cmd]) 1 s;
          s = (case data of
                 None \<Rightarrow> s
               | Some d \<Rightarrow> write_blocking_parallel (Bytes d) len (gpio_put DC True s))
      in gpio_put CS True s)"

subsection \<open>The pixel converter\<close>

text \<open>
  The expression stored by the conversion loop. The operands are \<^verbatim>\<open>uint8_t\<close>,
  promoted to \<^verbatim>\<open>int\<close>; the result is narrowed to \<^verbatim>\<open>uint16_t\<close> by the store.
\<close>

definition rgb565 :: "u8 \<Rightarrow> u8 \<Rightarrow> u8 \<Rightarrow> u16" where
  "rgb565 r g b =
     ucast (push_bit 8 ((ucast r :: u32) AND 0xF8) OR
            push_bit 3 ((ucast g :: u32) AND 0xFC) OR
            drop_bit 3 (ucast b :: u32))"

text \<open>
  The inner loop over \<open>x\<close>. \<open>src\<close> is the byte offset into the framebuffer and \<open>dst\<close>
  the element offset into the back-buffer. An access outside either array is undefined
  behaviour in the source and \<open>None\<close> here.
\<close>

function row_loop ::
  "nat \<Rightarrow> u8 list \<Rightarrow> nat \<Rightarrow> nat \<times> nat \<times> u16 list \<Rightarrow> (nat \<times> nat \<times> u16 list) option" where
  "row_loop w fb x (src, dst, bb) =
     (if x < w then
        (if src + 2 < length fb \<and> dst + w < length bb then
           (let v = rgb565 (fb ! src) (fb ! (src + 1)) (fb ! (src + 2));
                bb = bb[dst := v];
                bb = bb[dst + w := v]
            in row_loop w fb (x + 1) (src + 4, dst + 1, bb))
         else None)
      else Some (src, dst, bb))"
  by pat_completeness auto
termination
  by (relation "measure (\<lambda>(w, fb, x, st). w - x)") auto

text \<open>The outer loop over \<open>y\<close>, which steps by two and skips the doubled row.\<close>

function frame_loop ::
  "nat \<Rightarrow> nat \<Rightarrow> u8 list \<Rightarrow> nat \<Rightarrow> nat \<times> nat \<times> u16 list \<Rightarrow> u16 list option" where
  "frame_loop w h fb y (src, dst, bb) =
     (if y < h * 2 then
        (case row_loop w fb 0 (src, dst, bb) of
           None \<Rightarrow> None
         | Some (src', dst', bb') \<Rightarrow> frame_loop w h fb (y + 2) (src', dst' + w, bb'))
      else Some bb)"
  by pat_completeness auto
termination
  by (relation "measure (\<lambda>(w, h, fb, y, st). h * 2 - y)") auto

definition convert :: "u8 list \<Rightarrow> u16 list \<Rightarrow> u16 list option" where
  "convert fb bb = frame_loop width height fb 0 (0, 0, bb)"

subsection \<open>update\<close>

text \<open>
  \<^verbatim>\<open>update()\<close>. The framebuffer is the external array \<^verbatim>\<open>framebuffer[]\<close> seen
  through \<^verbatim>\<open>(uint8_t *)\<close>, and \<open>sys_clk_hz\<close> is what
  \<^verbatim>\<open>clock_get_hz(clk_sys)\<close> returns; both belong to the caller's environment and are
  arguments here. \<^verbatim>\<open>pio_sm_set_clkdiv\<close> takes the divider as a \<^verbatim>\<open>float\<close>; the
  event records the integer handed to it. The result is \<open>None\<close> when the conversion loop
  would leave one of its arrays.
\<close>

definition clk_div :: "u32 \<Rightarrow> u32" where
  "clk_div sys_clk_hz = (sys_clk_hz + max_pio_clk - 1) div max_pio_clk"

definition update :: "u8 list \<Rightarrow> u32 \<Rightarrow> driver \<Rightarrow> driver option" where
  "update framebuffer sys_clk_hz s =
     (let cmd = RAMWR;
          s = (if \<not> display_on s
               then (sleep_ms 100 (command DISPON 0 None s))\<lparr>display_on := True\<rparr>
               else s);
          s = emit (Pio_sm_set_clkdiv PARALLEL_PD_SM (clk_div sys_clk_hz)) s;
          s = emit (Dma_channel_wait_for_finish_blocking PD_ST_DMA) s;
          s = emit (Pio_wait_tx_fifo_empty PARALLEL_PD_SM) s;
          s = emit Backbuffer_fill s
      in case convert framebuffer (backbuffer s) of
           None \<Rightarrow> None
         | Some bb \<Rightarrow>
             (let s = s\<lparr>backbuffer := bb\<rparr>;
                  s = gpio_put DC False s;
                  s = gpio_put CS False s;
                  s = write_blocking_parallel (Bytes [cmd]) 1 s;
                  s = gpio_put DC True s;
                  s = emit (Dma_channel_set_trans_count PD_ST_DMA (160 * 240) False) s
              in Some (emit (Dma_channel_set_read_addr PD_ST_DMA Backbuffer_addr True) s)))"

subsection \<open>set_backlight\<close>

text \<open>
  \<^verbatim>\<open>set_backlight(brightness)\<close>. The duty level is computed in floating point,
  \<^verbatim>\<open>(uint16_t)(pow((float)brightness / 255.0f, gamma) * 65535.0f + 0.5f)\<close>, which
  has no counterpart here: the function \<open>gam\<close> stands for that expression as a function
  of the brightness byte.
\<close>

definition set_backlight :: "(u8 \<Rightarrow> u16) \<Rightarrow> u8 \<Rightarrow> driver \<Rightarrow> driver" where
  "set_backlight gam brightness s =
     (let v = gam brightness;
          s = pwm_set_gpio_level BL v s
      in if brightness = 0 \<and> \<not> display_sleep s then
           (sleep_ms 5 (command SLPOUT 0 None s))\<lparr>display_sleep := True\<rparr>
         else if display_sleep s then
           (sleep_ms 120 (command SLPOUT 0 None s))\<lparr>display_sleep := False\<rparr>
         else s)"

subsection \<open>init\<close>

text \<open>
  \<^verbatim>\<open>__builtin_bswap16\<close>, and the bytes of a \<^verbatim>\<open>uint16_t\<close> array as
  \<^verbatim>\<open>(char *)\<close> reads them on the little-endian RP2350.
\<close>

definition bswap16 :: "u16 \<Rightarrow> u16" where
  "bswap16 v = push_bit 8 v OR drop_bit 8 v"

definition bytes_of_u16 :: "u16 \<Rightarrow> u8 list" where
  "bytes_of_u16 v = [ucast v, ucast (drop_bit 8 v)]"

definition init :: "(u8 \<Rightarrow> u16) \<Rightarrow> u8 list \<Rightarrow> u32 \<Rightarrow> driver \<Rightarrow> driver option" where
  "init gam framebuffer sys_clk_hz s =
     (let s = emit (Gpio_set_function DC GPIO_FUNC_SIO) s;
          s = emit (Gpio_set_dir DC True) s;
          s = emit (Gpio_set_function CS GPIO_FUNC_SIO) s;
          s = emit (Gpio_set_dir CS True) s;
          s = emit (Pwm_set_wrap BL 65535) s;
          s = emit (Pwm_init BL True) s;
          s = emit (Gpio_set_function BL GPIO_FUNC_PWM) s;
          s = set_backlight gam 0 s;
          s = command SWRESET 0 None s;
          s = sleep_ms 150 s;
          s = command TEON 0 None s;
          s = command COLMOD 1 (Some [0x05]) s;
          s = command PORCTRL 5 (Some [0x0c, 0x0c, 0x00, 0x33, 0x33]) s;
          s = command LCMCTRL 1 (Some [0x2c]) s;
          s = command VDVVRHEN 1 (Some [0x01]) s;
          s = command VRHS 1 (Some [0x12]) s;
          s = command VDVS 1 (Some [0x20]) s;
          s = command PWCTRL1 2 (Some [0xa4, 0xa1]) s;
          s = command FRCTRL2 1 (Some [0x0f]) s;
          s = command RAMCTRL 2 (Some [0x00, 0xc0]) s;
          s = command GCTRL 1 (Some [0x35]) s;
          s = command VCOMS 1 (Some [0x1f]) s;
          s = command GMCTRP1 14
                (Some [0xD0, 0x08, 0x11, 0x08, 0x0C, 0x15, 0x39,
                       0x33, 0x50, 0x36, 0x13, 0x14, 0x29, 0x2D]) s;
          s = command GMCTRN1 14
                (Some [0xD0, 0x08, 0x10, 0x08, 0x06, 0x06, 0x39,
                       0x44, 0x51, 0x0B, 0x16, 0x14, 0x2F, 0x31]) s;
          s = command INVON 0 None s;
          s = command SLPOUT 0 None s;
          s = command DISPON 0 None s;
          s = sleep_ms 100 s;
          madctl = ROW_ORDER OR SWAP_XY OR SCAN_ORDER;
          caset = [bswap16 0, bswap16 319];
          raset = [bswap16 0, bswap16 239];
          s = command CASET 4 (Some (concat (map bytes_of_u16 caset))) s;
          s = command RASET 4 (Some (concat (map bytes_of_u16 raset))) s;
          s = command MADCTL 1 (Some [madctl]) s
      in case update framebuffer sys_clk_hz s of
           None \<Rightarrow> None
         | Some s \<Rightarrow> Some (set_backlight gam 255 s))"

subsection \<open>Executions\<close>




text \<open>
  The states a client can observe: those \<^verbatim>\<open>init\<close> returns, and those the three
  operations return from there.
\<close>

inductive reachable :: "(u8 \<Rightarrow> u16) \<Rightarrow> driver \<Rightarrow> bool" for gam :: "u8 \<Rightarrow> u16" where
  after_init: "init gam fb hz s = Some s' \<Longrightarrow> reachable gam s'"
| after_reinit: "reachable gam s \<Longrightarrow> init gam fb hz s = Some s' \<Longrightarrow> reachable gam s'"
| after_update: "reachable gam s \<Longrightarrow> update fb hz s = Some s' \<Longrightarrow> reachable gam s'"
| after_set_backlight: "reachable gam s \<Longrightarrow> reachable gam (set_backlight gam b s)"

text \<open>
  A driver object before \<^verbatim>\<open>init\<close>: the static back-buffer zeroed, nothing sent yet.
  The initial values of the two flags are set in the header, so they are arguments.
\<close>

definition fresh :: "bool \<Rightarrow> bool \<Rightarrow> driver" where
  "fresh on asleep =
     \<lparr>display_on = on, display_sleep = asleep,
      backbuffer = replicate backbuffer_size 0, bl_level = 0, trace = []\<rparr>"

subsection \<open>Reading traces\<close>

text \<open>The events a call added: what the trace holds beyond the trace it started from.\<close>

definition events_since :: "driver \<Rightarrow> driver \<Rightarrow> event list" where
  "events_since s s' = drop (length (trace s)) (trace s')"

text \<open>The events of one \<^verbatim>\<open>command\<close> call, in order.\<close>

definition transfer_events :: "u8 list \<Rightarrow> nat \<Rightarrow> event list" where
  "transfer_events d len =
     [Dma_wait_while_busy ST_DMA,
      Dma_channel_set_trans_count ST_DMA len False,
      Dma_channel_set_read_addr ST_DMA (Bytes d) True,
      Dma_channel_wait_for_finish_blocking ST_DMA,
      Pio_wait_tx_fifo_empty PARALLEL_SM]"

definition command_events :: "u8 \<Rightarrow> nat \<Rightarrow> u8 list option \<Rightarrow> event list" where
  "command_events cmd len data =
     [Enter_command cmd len data, Gpio_put DC False, Gpio_put CS False] @
     transfer_events [cmd] 1 @
     (case data of None \<Rightarrow> [] | Some d \<Rightarrow> Gpio_put DC True # transfer_events d len) @
     [Gpio_put CS True]"

text \<open>The events of one \<^verbatim>\<open>update\<close> call, given the \<open>display_on\<close> flag it finds.\<close>

definition update_events :: "bool \<Rightarrow> u32 \<Rightarrow> event list" where
  "update_events on hz =
     (if on then [] else command_events DISPON 0 None @ [Sleep_ms 100]) @
     [Pio_sm_set_clkdiv PARALLEL_PD_SM (clk_div hz),
      Dma_channel_wait_for_finish_blocking PD_ST_DMA,
      Pio_wait_tx_fifo_empty PARALLEL_PD_SM,
      Backbuffer_fill,
      Gpio_put DC False,
      Gpio_put CS False] @
     transfer_events [RAMWR] 1 @
     [Gpio_put DC True,
      Dma_channel_set_trans_count PD_ST_DMA (160 * 240) False,
      Dma_channel_set_read_addr PD_ST_DMA Backbuffer_addr True]"

text \<open>The events of one \<^verbatim>\<open>set_backlight\<close> call, given the \<open>display_sleep\<close> flag.\<close>

definition set_backlight_events :: "(u8 \<Rightarrow> u16) \<Rightarrow> u8 \<Rightarrow> bool \<Rightarrow> event list" where
  "set_backlight_events gam b asleep =
     Pwm_set_gpio_level BL (gam b) #
     (if b = 0 \<and> \<not> asleep then command_events SLPOUT 0 None @ [Sleep_ms 5]
      else if asleep then command_events SLPOUT 0 None @ [Sleep_ms 120]
      else [])"

text \<open>The pixel the conversion loop computes from the three bytes at offset \<open>k\<close>.\<close>

definition px :: "u8 list \<Rightarrow> nat \<Rightarrow> u16" where
  "px fb k = rgb565 (fb ! k) (fb ! (k + 1)) (fb ! (k + 2))"

text \<open>
  Chip-select discipline. \<open>cs_high l evs\<close> is the level of the chip-select line after
  \<open>evs\<close> when it was \<open>l\<close> before; high means released. \<open>commands_find_cs_high sel l evs\<close>
  says that every \<^verbatim>\<open>command\<close> call in \<open>evs\<close> whose payload satisfies \<open>sel\<close> is
  entered with the line high.
\<close>

fun cs_high :: "bool \<Rightarrow> event list \<Rightarrow> bool" where
  "cs_high l [] = l"
| "cs_high l (Gpio_put p v # es) = cs_high (if p = CS then v else l) es"
| "cs_high l (_ # es) = cs_high l es"

fun commands_find_cs_high :: "(u8 list option \<Rightarrow> bool) \<Rightarrow> bool \<Rightarrow> event list \<Rightarrow> bool" where
  "commands_find_cs_high sel l [] = True"
| "commands_find_cs_high sel l (Enter_command c n d # es) =
     ((if sel d then l else True) \<and> commands_find_cs_high sel l es)"
| "commands_find_cs_high sel l (Gpio_put p v # es) =
     commands_find_cs_high sel (if p = CS then v else l) es"
| "commands_find_cs_high sel l (_ # es) = commands_find_cs_high sel l es"



text \<open>
  The bulk pixel path as the driver sees it. Triggering the bulk channel starts a DMA read
  of the back-buffer; \<^verbatim>\<open>dma_channel_wait_for_finish_blocking\<close> on that channel
  returns when the read is complete, with pixels possibly still queued in the state
  machine's FIFO; waiting for the FIFO to empty then leaves the path idle.
\<close>

datatype bulk = Idle | Reading | Draining

fun bulk_step :: "bulk \<Rightarrow> event \<Rightarrow> bulk" where
  "bulk_step b (Dma_channel_set_read_addr ch src trig) =
     (if ch = PD_ST_DMA \<and> trig then Reading else b)"
| "bulk_step b (Dma_channel_set_trans_count ch n trig) =
     (if ch = PD_ST_DMA \<and> trig then Reading else b)"
| "bulk_step b (Dma_channel_wait_for_finish_blocking ch) =
     (if ch = PD_ST_DMA \<and> b = Reading then Draining else b)"
| "bulk_step b (Pio_wait_tx_fifo_empty sm) =
     (if sm = PARALLEL_PD_SM \<and> b = Draining then Idle else b)"
| "bulk_step b _ = b"

text \<open>Every start of the conversion loop in \<open>evs\<close> finds the bulk path idle.\<close>

fun fills_find_bulk_idle :: "bulk \<Rightarrow> event list \<Rightarrow> bool" where
  "fills_find_bulk_idle b [] = True"
| "fills_find_bulk_idle b (e # es) =
     ((if e = Backbuffer_fill then b = Idle else True) \<and> fills_find_bulk_idle (bulk_step b e) es)"

text \<open>Projections of a trace: the opcodes of the commands entered, the dividers applied
  to the bulk state machine, the transfer counts set on the bulk channel.\<close>

fun command_opcodes :: "event list \<Rightarrow> u8 list" where
  "command_opcodes [] = []"
| "command_opcodes (Enter_command c n d # es) = c # command_opcodes es"
| "command_opcodes (_ # es) = command_opcodes es"

fun applied_clkdivs :: "event list \<Rightarrow> u32 list" where
  "applied_clkdivs [] = []"
| "applied_clkdivs (Pio_sm_set_clkdiv sm d # es) =
     (if sm = PARALLEL_PD_SM then d # applied_clkdivs es else applied_clkdivs es)"
| "applied_clkdivs (_ # es) = applied_clkdivs es"

fun bulk_trans_counts :: "event list \<Rightarrow> nat list" where
  "bulk_trans_counts [] = []"
| "bulk_trans_counts (Dma_channel_set_trans_count ch n trig # es) =
     (if ch = PD_ST_DMA then n # bulk_trans_counts es else bulk_trans_counts es)"
| "bulk_trans_counts (_ # es) = bulk_trans_counts es"

text \<open>\<open>a\<close> occurs in \<open>xs\<close>, and no \<open>b\<close> occurs before its first occurrence.\<close>

fun first_before :: "u8 \<Rightarrow> u8 \<Rightarrow> u8 list \<Rightarrow> bool" where
  "first_before a b [] = False"
| "first_before a b (x # xs) = (if x = a then True else if x = b then False else first_before a b xs)"

text \<open>The events of \<^verbatim>\<open>init\<close> in three parts, up to its call of \<^verbatim>\<open>update\<close>:
  pin and PWM setup; reset and panel registers; display on, address window and
  orientation. \<open>before_update\<close> is the state in which \<^verbatim>\<open>init\<close> calls
  \<^verbatim>\<open>update\<close>.\<close>

definition setup_events :: "event list" where
  "setup_events =
     [Gpio_set_function DC GPIO_FUNC_SIO, Gpio_set_dir DC True,
      Gpio_set_function CS GPIO_FUNC_SIO, Gpio_set_dir CS True,
      Pwm_set_wrap BL 65535, Pwm_init BL True, Gpio_set_function BL GPIO_FUNC_PWM]"

definition register_events :: "event list" where
  "register_events =
     command_events SWRESET 0 None @ [Sleep_ms 150] @
     command_events TEON 0 None @
     command_events COLMOD 1 (Some [0x05]) @
     command_events PORCTRL 5 (Some [0x0c, 0x0c, 0x00, 0x33, 0x33]) @
     command_events LCMCTRL 1 (Some [0x2c]) @
     command_events VDVVRHEN 1 (Some [0x01]) @
     command_events VRHS 1 (Some [0x12]) @
     command_events VDVS 1 (Some [0x20]) @
     command_events PWCTRL1 2 (Some [0xa4, 0xa1]) @
     command_events FRCTRL2 1 (Some [0x0f]) @
     command_events RAMCTRL 2 (Some [0x00, 0xc0]) @
     command_events GCTRL 1 (Some [0x35]) @
     command_events VCOMS 1 (Some [0x1f]) @
     command_events GMCTRP1 14
       (Some [0xD0, 0x08, 0x11, 0x08, 0x0C, 0x15, 0x39,
              0x33, 0x50, 0x36, 0x13, 0x14, 0x29, 0x2D]) @
     command_events GMCTRN1 14
       (Some [0xD0, 0x08, 0x10, 0x08, 0x06, 0x06, 0x39,
              0x44, 0x51, 0x0B, 0x16, 0x14, 0x2F, 0x31]) @
     command_events INVON 0 None @
     command_events SLPOUT 0 None"

definition window_events :: "event list" where
  "window_events =
     command_events DISPON 0 None @ [Sleep_ms 100] @
     command_events CASET 4 (Some [0x00, 0x00, 0x01, 0x3F]) @
     command_events RASET 4 (Some [0x00, 0x00, 0x00, 0xEF]) @
     command_events MADCTL 1 (Some [0xB0])"

definition before_update :: "(u8 \<Rightarrow> u16) \<Rightarrow> driver \<Rightarrow> driver" where
  "before_update gam s =
     s\<lparr>display_sleep := \<not> display_sleep s, bl_level := gam 0,
       trace := trace s @ setup_events @ set_backlight_events gam 0 (display_sleep s) @
                register_events @ window_events\<rparr>"

text \<open>A 16-bit value as a big-endian pair of bytes, high byte first.\<close>

definition be_bytes :: "nat \<Rightarrow> u8 list" where
  "be_bytes n = [word_of_nat (n div 256), word_of_nat (n mod 256)]"

text \<open>The sleep invariant of the data model: a sleeping panel has its backlight off.\<close>

definition sleep_implies_dark :: "driver \<Rightarrow> bool" where
  "sleep_implies_dark s = (display_sleep s \<longrightarrow> bl_level s = 0)"


section \<open>Properties\<close>

lemmas reg_defs =
  SWRESET_def TEON_def MADCTL_def COLMOD_def RAMCTRL_def GCTRL_def VCOMS_def LCMCTRL_def
  VDVVRHEN_def VRHS_def VDVS_def FRCTRL2_def PWCTRL1_def PORCTRL_def GMCTRP1_def
  GMCTRN1_def SLPIN_def SLPOUT_def DISPON_def RAMWR_def INVON_def CASET_def RASET_def

declare row_loop.simps [simp del] frame_loop.simps [simp del]

subsection \<open>What each operation does to the state\<close>

lemma command_eq: "command cmd len data s = s\<lparr>trace := trace s @ command_events cmd len data\<rparr>"
  by (cases data)
     (simp_all add: command_def command_events_def transfer_events_def write_blocking_parallel_def
        write_blocking_dma_def gpio_put_def emit_def Let_def)

lemma set_backlight_eq:
  "set_backlight gam b s =
     s\<lparr>display_sleep := (b = 0 \<and> \<not> display_sleep s), bl_level := gam b,
       trace := trace s @ set_backlight_events gam b (display_sleep s)\<rparr>"
  by (simp add: set_backlight_def set_backlight_events_def pwm_set_gpio_level_def command_eq
        sleep_ms_def emit_def Let_def)

lemma update_eq:
  "update fb hz s =
     (case convert fb (backbuffer s) of
        None \<Rightarrow> None
      | Some bb \<Rightarrow>
          Some (s\<lparr>display_on := True, backbuffer := bb,
                  trace := trace s @ update_events (display_on s) hz\<rparr>))"
  by (simp add: update_def update_events_def command_eq sleep_ms_def gpio_put_def emit_def
        write_blocking_parallel_def write_blocking_dma_def transfer_events_def Let_def
        split: option.split)

lemma window_payloads:
  "concat (map bytes_of_u16 [bswap16 0, bswap16 319]) = [0x00, 0x00, 0x01, 0x3F]"
  "concat (map bytes_of_u16 [bswap16 0, bswap16 239]) = [0x00, 0x00, 0x00, 0xEF]"
  "ROW_ORDER OR SWAP_XY OR SCAN_ORDER = 0xB0"
  by (simp_all add: bytes_of_u16_def bswap16_def ROW_ORDER_def SWAP_XY_def SCAN_ORDER_def)

lemma init_eq:
  "init gam fb hz s =
     (case update fb hz (before_update gam s) of
        None \<Rightarrow> None
      | Some s' \<Rightarrow> Some (set_backlight gam 255 s'))"
proof -
  have "before_update gam s =
     command MADCTL 1 (Some [0xB0])
      (command RASET 4 (Some [0x00, 0x00, 0x00, 0xEF])
        (command CASET 4 (Some [0x00, 0x00, 0x01, 0x3F])
          (sleep_ms 100 (command DISPON 0 None
            (s\<lparr>display_sleep := \<not> display_sleep s, bl_level := gam 0,
               trace := trace s @ setup_events @ set_backlight_events gam 0 (display_sleep s) @
                        register_events\<rparr>)))))"
    by (simp add: before_update_def window_events_def command_eq sleep_ms_def emit_def)
  then show ?thesis
    unfolding init_def Let_def window_payloads
    by (simp add: command_eq set_backlight_eq sleep_ms_def emit_def setup_events_def
          register_events_def)
qed

subsection \<open>The conversion loops\<close>

lemma row_loop_result:
  assumes "x \<le> w" "src + 4 * (w - x) \<le> length fb" "dst + (w - x) + w \<le> length bb"
  shows "\<exists>bb'. row_loop w fb x (src, dst, bb) = Some (src + 4 * (w - x), dst + (w - x), bb')
           \<and> length bb' = length bb
           \<and> (\<forall>i < length bb. bb' ! i =
                (if dst \<le> i \<and> i < dst + (w - x) then px fb (src + 4 * (i - dst))
                 else if dst + w \<le> i \<and> i < dst + w + (w - x) then px fb (src + 4 * (i - dst - w))
                 else bb ! i))"
  using assms
proof (induction "w - x" arbitrary: x src dst bb)
  case 0
  then show ?case by (auto simp add: row_loop.simps)
next
  case (Suc n)
  then have xw: "x < w" and n: "n = w - (x + 1)" by simp_all
  let ?v = "px fb src"
  let ?bb = "bb[dst := ?v, dst + w := ?v]"
  have b1: "x + 1 \<le> w" "src + 4 + 4 * (w - (x + 1)) \<le> length fb"
       "dst + 1 + (w - (x + 1)) + w \<le> length ?bb"
    using Suc.prems xw by simp_all
  from Suc.hyps(1) [OF n b1] obtain bb' where
    r: "row_loop w fb (x + 1) (src + 4, dst + 1, ?bb) =
          Some (src + 4 + 4 * (w - (x + 1)), dst + 1 + (w - (x + 1)), bb')"
    and l: "length bb' = length ?bb"
    and c: "\<forall>i < length ?bb. bb' ! i =
                (if dst + 1 \<le> i \<and> i < dst + 1 + (w - (x + 1)) then px fb (src + 4 + 4 * (i - (dst + 1)))
                 else if dst + 1 + w \<le> i \<and> i < dst + 1 + w + (w - (x + 1)) then px fb (src + 4 + 4 * (i - (dst + 1) - w))
                 else ?bb ! i)"
    by blast
  have guard: "src + 2 < length fb" "dst + w < length bb"
    using Suc.prems xw by simp_all
  have step: "row_loop w fb x (src, dst, bb) = row_loop w fb (x + 1) (src + 4, dst + 1, ?bb)"
    using xw guard by (subst row_loop.simps) (simp add: px_def Let_def)
  have e1: "src + 4 + 4 * (w - (x + 1)) = src + 4 * (w - x)" "dst + 1 + (w - (x + 1)) = dst + (w - x)"
    using xw by simp_all
  have "\<forall>i < length bb. bb' ! i =
                (if dst \<le> i \<and> i < dst + (w - x) then px fb (src + 4 * (i - dst))
                 else if dst + w \<le> i \<and> i < dst + w + (w - x) then px fb (src + 4 * (i - dst - w))
                 else bb ! i)"
  proof (intro allI impI)
    fix i assume i: "i < length bb"
    have ci: "bb' ! i =
                (if dst + 1 \<le> i \<and> i < dst + 1 + (w - (x + 1)) then px fb (src + 4 + 4 * (i - (dst + 1)))
                 else if dst + 1 + w \<le> i \<and> i < dst + 1 + w + (w - (x + 1)) then px fb (src + 4 + 4 * (i - (dst + 1) - w))
                 else ?bb ! i)"
      using c i by simp
    consider "i = dst" | "i = dst + w" | "i \<noteq> dst" "i \<noteq> dst + w" by blast
    then show "bb' ! i =
                (if dst \<le> i \<and> i < dst + (w - x) then px fb (src + 4 * (i - dst))
                 else if dst + w \<le> i \<and> i < dst + w + (w - x) then px fb (src + 4 * (i - dst - w))
                 else bb ! i)"
    proof cases
      case 1
      have n: "\<not> (dst + 1 \<le> i \<and> i < dst + 1 + (w - (x + 1)))"
              "\<not> (dst + 1 + w \<le> i \<and> i < dst + 1 + w + (w - (x + 1)))"
        using 1 by arith+
      have p: "dst \<le> i \<and> i < dst + (w - x)" using 1 xw by arith
      have "bb' ! i = ?bb ! i" using ci by (simp only: n simp_thms if_False)
      moreover have "?bb ! i = ?v" using 1 i xw by (simp add: nth_list_update)
      moreover have "px fb (src + 4 * (i - dst)) = ?v" using 1 by simp
      ultimately show ?thesis by (simp only: p simp_thms if_True)
    next
      case 2
      have n: "\<not> (dst + 1 \<le> i \<and> i < dst + 1 + (w - (x + 1)))"
              "\<not> (dst + 1 + w \<le> i \<and> i < dst + 1 + w + (w - (x + 1)))"
        using 2 xw by arith+
      have p: "\<not> (dst \<le> i \<and> i < dst + (w - x))" "dst + w \<le> i \<and> i < dst + w + (w - x)"
        using 2 xw by arith+
      have "bb' ! i = ?bb ! i" using ci by (simp only: n simp_thms if_False)
      moreover have "?bb ! i = ?v" using 2 i by (simp add: nth_list_update)
      moreover have "px fb (src + 4 * (i - dst - w)) = ?v" using 2 by simp
      ultimately show ?thesis by (simp only: p simp_thms if_True if_False)
    next
      case 3
      have q: "(dst + 1 \<le> i \<and> i < dst + 1 + (w - (x + 1))) = (dst \<le> i \<and> i < dst + (w - x))"
              "(dst + 1 + w \<le> i \<and> i < dst + 1 + w + (w - (x + 1))) = (dst + w \<le> i \<and> i < dst + w + (w - x))"
        using 3 xw by arith+
      have a1: "src + 4 + 4 * (i - (dst + 1)) = src + 4 * (i - dst)" if "dst \<le> i \<and> i < dst + (w - x)"
        using that 3 by arith
      have a2: "src + 4 + 4 * (i - (dst + 1) - w) = src + 4 * (i - dst - w)" if "dst + w \<le> i \<and> i < dst + w + (w - x)"
        using that 3 by arith
      have u: "?bb ! i = bb ! i" using 3 by simp
      show ?thesis
      proof (cases "dst \<le> i \<and> i < dst + (w - x)")
        case True
        then show ?thesis using ci a1 by (simp only: q simp_thms if_True)
      next
        case False
        note F = this
        show ?thesis
        proof (cases "dst + w \<le> i \<and> i < dst + w + (w - x)")
          case True
          then show ?thesis using ci a2 F by (simp only: q simp_thms if_True if_False)
        next
          case False
          then show ?thesis using ci u F by (simp only: q simp_thms if_False)
        qed
      qed
    qed
  qed
  with r l step e1 show ?case by simp
qed

lemma frame_loop_result:
  assumes "k \<le> h" "src + 4 * w * (h - k) \<le> length fb" "dst + 2 * w * (h - k) \<le> length bb"
  shows "\<exists>bb'. frame_loop w h fb (2 * k) (src, dst, bb) = Some bb'
           \<and> length bb' = length bb
           \<and> (\<forall>i < dst. bb' ! i = bb ! i)
           \<and> (\<forall>r c. r < h - k \<longrightarrow> c < w \<longrightarrow>
                  bb' ! (dst + 2 * w * r + c) = px fb (src + 4 * (r * w + c)) \<and>
                  bb' ! (dst + 2 * w * r + w + c) = px fb (src + 4 * (r * w + c)))"
  using assms
proof (induction "h - k" arbitrary: k src dst bb)
  case 0
  then show ?case by (simp add: frame_loop.simps)
next
  case (Suc n)
  then have kh: "k < h" and n: "n = h - (k + 1)" by simp_all
  have hk: "h - k = Suc (h - (k + 1))" using kh by simp
  have sz: "src + 4 * w + 4 * w * (h - (k + 1)) \<le> length fb"
           "dst + 2 * w + 2 * w * (h - (k + 1)) \<le> length bb"
    using Suc.prems(2,3) by (simp_all add: hk)
  have rb: "0 \<le> w" "src + 4 * (w - 0) \<le> length fb" "dst + (w - 0) + w \<le> length bb"
    using sz by simp_all
  from row_loop_result [OF rb] obtain bb1 where
    r1: "row_loop w fb 0 (src, dst, bb) = Some (src + 4 * w, dst + w, bb1)"
    and l1: "length bb1 = length bb"
    and c1: "\<forall>i < length bb. bb1 ! i =
                (if dst \<le> i \<and> i < dst + w then px fb (src + 4 * (i - dst))
                 else if dst + w \<le> i \<and> i < dst + w + w then px fb (src + 4 * (i - dst - w))
                 else bb ! i)"
    by auto
  have b2: "k + 1 \<le> h" "src + 4 * w + 4 * w * (h - (k + 1)) \<le> length fb"
           "dst + w + w + 2 * w * (h - (k + 1)) \<le> length bb1"
    using kh sz l1 by simp_all
  from Suc.hyps(1) [OF n b2] obtain bb' where
    r2: "frame_loop w h fb (2 * (k + 1)) (src + 4 * w, dst + w + w, bb1) = Some bb'"
    and l2: "length bb' = length bb1"
    and u2: "\<forall>i < dst + w + w. bb' ! i = bb1 ! i"
    and c2: "\<forall>r c. r < h - (k + 1) \<longrightarrow> c < w \<longrightarrow>
                  bb' ! (dst + w + w + 2 * w * r + c) = px fb (src + 4 * w + 4 * (r * w + c)) \<and>
                  bb' ! (dst + w + w + 2 * w * r + w + c) = px fb (src + 4 * w + 4 * (r * w + c))"
    by blast
  have step: "frame_loop w h fb (2 * k) (src, dst, bb) = Some bb'"
    using kh r1 r2 by (subst frame_loop.simps) simp
  have below: "\<forall>i < dst. bb' ! i = bb ! i"
    using u2 c1 sz by simp
  have rows: "bb' ! (dst + 2 * w * r + c) = px fb (src + 4 * (r * w + c)) \<and>
              bb' ! (dst + 2 * w * r + w + c) = px fb (src + 4 * (r * w + c))"
    if "r < h - k" "c < w" for r c
  proof (cases r)
    case 0
    have "dst + c < length bb" "dst + w + c < length bb" using sz that by simp_all
    then show ?thesis using 0 u2 c1 that by simp
  next
    case (Suc r')
    then have "r' < h - (k + 1)" using that by simp
    with c2 that have f:
      "bb' ! (dst + w + w + 2 * w * r' + c) = px fb (src + 4 * w + 4 * (r' * w + c)) \<and>
       bb' ! (dst + w + w + 2 * w * r' + w + c) = px fb (src + 4 * w + 4 * (r' * w + c))"
      by blast
    have e: "dst + w + w + 2 * w * r' = dst + 2 * w * r"
            "src + 4 * w + 4 * (r' * w + c) = src + 4 * (r * w + c)"
      using Suc by (simp_all add: algebra_simps)
    from f show ?thesis by (simp only: e)
  qed
  from step l1 l2 below rows show ?case by auto
qed

lemma convert_result:
  assumes "4 * width * height \<le> length fb" "backbuffer_size \<le> length bb"
  shows "\<exists>bb'. convert fb bb = Some bb' \<and> length bb' = length bb \<and>
           (\<forall>y x. y < height \<longrightarrow> x < width \<longrightarrow>
              bb' ! (2 * y * width + x) = px fb (4 * (y * width + x)) \<and>
              bb' ! ((2 * y + 1) * width + x) = px fb (4 * (y * width + x)))"
proof -
  have b: "0 \<le> height" "0 + 4 * width * (height - 0) \<le> length fb"
          "0 + 2 * width * (height - 0) \<le> length bb"
    using assms by (simp_all add: width_def height_def backbuffer_size_def)
  from frame_loop_result [OF b] obtain bb' where
    r: "frame_loop width height fb 0 (0, 0, bb) = Some bb'"
    and l: "length bb' = length bb"
    and c: "\<forall>r c. r < height \<longrightarrow> c < width \<longrightarrow>
              bb' ! (2 * width * r + c) = px fb (4 * (r * width + c)) \<and>
              bb' ! (2 * width * r + width + c) = px fb (4 * (r * width + c))"
    by auto
  have "bb' ! (2 * y * width + x) = px fb (4 * (y * width + x)) \<and>
        bb' ! ((2 * y + 1) * width + x) = px fb (4 * (y * width + x))"
    if "y < height" "x < width" for y x
  proof -
    have e: "2 * y * width + x = 2 * width * y + x"
            "(2 * y + 1) * width + x = 2 * width * y + width + x"
      by (simp_all add: algebra_simps)
    from c that have "bb' ! (2 * width * y + x) = px fb (4 * (y * width + x)) \<and>
              bb' ! (2 * width * y + width + x) = px fb (4 * (y * width + x))"
      by blast
    then show ?thesis by (simp only: e)
  qed
  with r l show ?thesis by (simp add: convert_def)
qed

subsection \<open>Bits of a converted pixel\<close>

lemma bit_F8_word: "bit (0xF8::'a::len word) n \<longleftrightarrow> 3 \<le> n \<and> n < 8 \<and> n < LENGTH('a)"
proof -
  have "(0xF8::'a word) = push_bit 3 (mask 5)"
    by (simp add: mask_eq_exp_minus_1 push_bit_eq_mult)
  then have "bit (0xF8::'a word) n = bit (push_bit 3 (mask 5) :: 'a word) n" by simp
  also have "\<dots> \<longleftrightarrow> 3 \<le> n \<and> n < 8 \<and> n < LENGTH('a)"
    by (auto simp only: bit_push_bit_iff bit_mask_iff possible_bit_word)
  finally show ?thesis .
qed

lemma bit_FC_word: "bit (0xFC::'a::len word) n \<longleftrightarrow> 2 \<le> n \<and> n < 8 \<and> n < LENGTH('a)"
proof -
  have "(0xFC::'a word) = push_bit 2 (mask 6)"
    by (simp add: mask_eq_exp_minus_1 push_bit_eq_mult)
  then have "bit (0xFC::'a word) n = bit (push_bit 2 (mask 6) :: 'a word) n" by simp
  also have "\<dots> \<longleftrightarrow> 2 \<le> n \<and> n < 8 \<and> n < LENGTH('a)"
    by (auto simp only: bit_push_bit_iff bit_mask_iff possible_bit_word)
  finally show ?thesis .
qed

lemma bit_F8_nat: "bit (0xF8::nat) n \<longleftrightarrow> 3 \<le> n \<and> n < 8"
proof -
  have "(0xF8::nat) = push_bit 3 (mask 5)"
    by (simp add: mask_eq_exp_minus_1 push_bit_eq_mult)
  then have "bit (0xF8::nat) n = bit (push_bit 3 (mask 5) :: nat) n" by simp
  also have "\<dots> \<longleftrightarrow> 3 \<le> n \<and> n < 8"
    by (auto simp only: bit_push_bit_iff bit_mask_iff possible_bit_def) arith+
  finally show ?thesis .
qed

lemma bit_FC_nat: "bit (0xFC::nat) n \<longleftrightarrow> 2 \<le> n \<and> n < 8"
proof -
  have "(0xFC::nat) = push_bit 2 (mask 6)"
    by (simp add: mask_eq_exp_minus_1 push_bit_eq_mult)
  then have "bit (0xFC::nat) n = bit (push_bit 2 (mask 6) :: nat) n" by simp
  also have "\<dots> \<longleftrightarrow> 2 \<le> n \<and> n < 8"
    by (auto simp only: bit_push_bit_iff bit_mask_iff possible_bit_def) arith+
  finally show ?thesis .
qed

lemma bit_rgb565:
  "bit (rgb565 r g b) n \<longleftrightarrow>
     (11 \<le> n \<and> n < 16 \<and> bit r (n - 8)) \<or>
     (5 \<le> n \<and> n < 11 \<and> bit g (n - 3)) \<or>
     (n < 5 \<and> bit b (n + 3))"
  unfolding rgb565_def
  by (simp only: bit_ucast_iff bit_or_iff bit_and_iff bit_push_bit_iff bit_drop_bit_eq
        bit_F8_word bit_FC_word possible_bit_word len_num0 len_num1 len_bit0 len_bit1 o_def)
     (auto simp add: add.commute dest: bit_imp_le_length)

lemma unat_rgb565:
  "unat (rgb565 r g b) =
     push_bit 8 (unat r AND 0xF8) OR push_bit 3 (unat g AND 0xFC) OR drop_bit 3 (unat b)"
proof (rule bit_eqI)
  fix n
  have "bit (unat (rgb565 r g b)) n = bit (rgb565 r g b) n"
    by (simp add: bit_unsigned_iff)
  also have "\<dots> \<longleftrightarrow> (11 \<le> n \<and> n < 16 \<and> bit r (n - 8)) \<or>
     (5 \<le> n \<and> n < 11 \<and> bit g (n - 3)) \<or>
     (n < 5 \<and> bit b (n + 3))" by (rule bit_rgb565)
  also have "\<dots> \<longleftrightarrow> bit (push_bit 8 (unat r AND 0xF8) OR push_bit 3 (unat g AND 0xFC) OR drop_bit 3 (unat b)) n"
    by (simp only: bit_or_iff bit_and_iff bit_push_bit_iff bit_drop_bit_eq o_def
          bit_F8_nat bit_FC_nat bit_unsigned_iff possible_bit_def)
       (auto simp add: add.commute dest: bit_imp_le_length)
  finally show "bit (unat (rgb565 r g b)) n = bit (push_bit 8 (unat r AND 0xF8) OR push_bit 3 (unat g AND 0xFC) OR drop_bit 3 (unat b)) n" .
qed


subsection \<open>The clock divider\<close>




subsection \<open>update as a whole\<close>

lemma update_result:
  assumes "4 * width * height \<le> length fb" "backbuffer_size \<le> length (backbuffer s)"
  shows "\<exists>bb. convert fb (backbuffer s) = Some bb \<and> length bb = length (backbuffer s) \<and>
           update fb hz s =
             Some (s\<lparr>display_on := True, backbuffer := bb,
                     trace := trace s @ update_events (display_on s) hz\<rparr>) \<and>
           (\<forall>y x. y < height \<longrightarrow> x < width \<longrightarrow>
              bb ! (2 * y * width + x) = px fb (4 * (y * width + x)) \<and>
              bb ! ((2 * y + 1) * width + x) = px fb (4 * (y * width + x)))"
proof -
  from convert_result [OF assms] obtain bb where
    "convert fb (backbuffer s) = Some bb" "length bb = length (backbuffer s)"
    "\<forall>y x. y < height \<longrightarrow> x < width \<longrightarrow>
              bb ! (2 * y * width + x) = px fb (4 * (y * width + x)) \<and>
              bb ! ((2 * y + 1) * width + x) = px fb (4 * (y * width + x))"
    by blast
  then show ?thesis by (simp add: update_eq)
qed

lemma update_SomeD:
  assumes "update fb hz s = Some s'"
  shows "events_since s s' = update_events (display_on s) hz"
    and "trace s' = trace s @ update_events (display_on s) hz"
    and "display_on s'" and "display_sleep s' = display_sleep s"
    and "bl_level s' = bl_level s"
  using assms by (auto simp add: update_eq events_since_def split: option.splits)

lemma events_since_append [simp]:
  "events_since s (s'\<lparr>trace := trace s @ evs\<rparr>) = evs"
  by (simp add: events_since_def)

subsection \<open>Projections of the traces\<close>

lemma command_opcodes_append [simp]:
  "command_opcodes (xs @ ys) = command_opcodes xs @ command_opcodes ys"
  by (induction xs rule: command_opcodes.induct) simp_all

lemma command_opcodes_transfer [simp]: "command_opcodes (transfer_events d n) = []"
  by (simp add: transfer_events_def)

lemma command_opcodes_command [simp]: "command_opcodes (command_events c n d) = [c]"
  by (cases d) (simp_all add: command_events_def)

lemma command_opcodes_update:
  "command_opcodes (update_events on hz) = (if on then [] else [DISPON])"
  by (simp add: update_events_def)

lemma command_opcodes_set_backlight:
  "command_opcodes (set_backlight_events gam b asleep) =
     (if b = 0 \<or> asleep then [SLPOUT] else [])"
  by (simp add: set_backlight_events_def)

lemma applied_clkdivs_append [simp]:
  "applied_clkdivs (xs @ ys) = applied_clkdivs xs @ applied_clkdivs ys"
  by (induction xs rule: applied_clkdivs.induct) simp_all


lemma bulk_trans_counts_append [simp]:
  "bulk_trans_counts (xs @ ys) = bulk_trans_counts xs @ bulk_trans_counts ys"
  by (induction xs rule: bulk_trans_counts.induct) simp_all

lemma bulk_trans_counts_update: "bulk_trans_counts (update_events on hz) = [160 * 240]"
  by (simp add: update_events_def command_events_def transfer_events_def)

lemma update_events_end:
  "\<exists>pre. update_events on hz =
     pre @ [Dma_channel_set_trans_count PD_ST_DMA (160 * 240) False,
            Dma_channel_set_read_addr PD_ST_DMA Backbuffer_addr True]"
proof -
  have "update_events on hz =
     ((if on then [] else command_events DISPON 0 None @ [Sleep_ms 100]) @
      [Pio_sm_set_clkdiv PARALLEL_PD_SM (clk_div hz),
       Dma_channel_wait_for_finish_blocking PD_ST_DMA,
       Pio_wait_tx_fifo_empty PARALLEL_PD_SM,
       Backbuffer_fill, Gpio_put DC False, Gpio_put CS False] @
      transfer_events [RAMWR] 1 @ [Gpio_put DC True]) @
     [Dma_channel_set_trans_count PD_ST_DMA (160 * 240) False,
      Dma_channel_set_read_addr PD_ST_DMA Backbuffer_addr True]"
    by (simp add: update_events_def)
  then show ?thesis by blast
qed

subsection \<open>init as a whole\<close>

lemma init_result:
  assumes "4 * width * height \<le> length fb" "backbuffer_size \<le> length (backbuffer s)"
  shows "\<exists>bb. length bb = length (backbuffer s) \<and>
           update fb hz (before_update gam s) =
             Some ((before_update gam s)\<lparr>display_on := True, backbuffer := bb,
                     trace := trace (before_update gam s) @ update_events (display_on s) hz\<rparr>) \<and>
           init gam fb hz s =
             Some (s\<lparr>display_on := True, display_sleep := False, backbuffer := bb,
                     bl_level := gam 255,
                     trace := trace s @ setup_events @
                              set_backlight_events gam 0 (display_sleep s) @
                              register_events @ window_events @
                              update_events (display_on s) hz @
                              set_backlight_events gam 255 (\<not> display_sleep s)\<rparr>)"
proof -
  have b: "backbuffer_size \<le> length (backbuffer (before_update gam s))"
    using assms(2) by (simp add: before_update_def)
  from update_result [OF assms(1) b, of hz] obtain bb where
    l: "length bb = length (backbuffer (before_update gam s))"
    and u: "update fb hz (before_update gam s) =
          Some ((before_update gam s)\<lparr>display_on := True, backbuffer := bb,
                  trace := trace (before_update gam s) @
                           update_events (display_on (before_update gam s)) hz\<rparr>)"
    by blast
  have d: "display_on (before_update gam s) = display_on s"
          "length (backbuffer (before_update gam s)) = length (backbuffer s)"
    by (simp_all add: before_update_def)
  have "init gam fb hz s =
          Some (set_backlight gam 255
                 ((before_update gam s)\<lparr>display_on := True, backbuffer := bb,
                     trace := trace (before_update gam s) @ update_events (display_on s) hz\<rparr>))"
    using u by (simp add: init_eq d)
  then have "init gam fb hz s =
             Some (s\<lparr>display_on := True, display_sleep := False, backbuffer := bb,
                     bl_level := gam 255,
                     trace := trace s @ setup_events @
                              set_backlight_events gam 0 (display_sleep s) @
                              register_events @ window_events @
                              update_events (display_on s) hz @
                              set_backlight_events gam 255 (\<not> display_sleep s)\<rparr>)"
    by (simp add: set_backlight_eq before_update_def)
  with l u d show ?thesis by auto
qed

lemma init_SomeD:
  assumes "init gam fb hz s = Some s'"
  shows "\<not> display_sleep s'" and "bl_level s' = gam 255" and "display_on s'"
    and "trace s' = trace s @ setup_events @ set_backlight_events gam 0 (display_sleep s) @
                    register_events @ window_events @ update_events (display_on s) hz @
                    set_backlight_events gam 255 (\<not> display_sleep s)"
    and "length (backbuffer s') = length (the (convert fb (backbuffer s)))"
  using assms
  by (auto simp add: init_eq update_eq set_backlight_eq before_update_def split: option.splits)

lemma be_bytes_window: "be_bytes 0 = [0x00, 0x00]" "be_bytes 319 = [0x01, 0x3F]"
  "be_bytes 239 = [0x00, 0xEF]"
  by (simp_all add: be_bytes_def)

lemma command_opcodes_init_parts:
  "command_opcodes setup_events = []"
  "command_opcodes register_events =
     [SWRESET, TEON, COLMOD, PORCTRL, LCMCTRL, VDVVRHEN, VRHS, VDVS, PWCTRL1, FRCTRL2,
      RAMCTRL, GCTRL, VCOMS, GMCTRP1, GMCTRN1, INVON, SLPOUT]"
  "command_opcodes window_events = [DISPON, CASET, RASET, MADCTL]"
  by (simp_all add: setup_events_def register_events_def window_events_def)

subsection \<open>Chip select along a trace\<close>

lemma cs_high_append [simp]: "cs_high l (xs @ ys) = cs_high (cs_high l xs) ys"
  by (induction l xs rule: cs_high.induct) simp_all

lemma commands_find_cs_high_append [simp]:
  "commands_find_cs_high sel l (xs @ ys) =
     (commands_find_cs_high sel l xs \<and> commands_find_cs_high sel (cs_high l xs) ys)"
  by (induction sel l xs rule: commands_find_cs_high.induct) simp_all

lemma cs_high_command [simp]: "cs_high l (command_events c n d) = True"
  by (cases d) (simp_all add: command_events_def transfer_events_def)

lemma commands_find_cs_high_command [simp]:
  "commands_find_cs_high sel l (command_events c n d) = (if sel d then l else True)"
  by (cases d) (simp_all add: command_events_def transfer_events_def)

lemma cs_high_update [simp]: "cs_high l (update_events on hz) = False"
  by (simp add: update_events_def transfer_events_def)




lemma cs_high_setup [simp]: "cs_high l setup_events = l"
  by (simp add: setup_events_def)






subsection \<open>The bulk path along a trace\<close>

lemma fills_find_bulk_idle_append [simp]:
  "fills_find_bulk_idle b (xs @ ys) =
     (fills_find_bulk_idle b xs \<and> fills_find_bulk_idle (foldl bulk_step b xs) ys)"
  by (induction xs arbitrary: b) simp_all

lemma bulk_command [simp]:
  "foldl bulk_step b (command_events c n d) = b"
  "fills_find_bulk_idle b (command_events c n d)"
  by (cases d; simp add: command_events_def transfer_events_def)+

lemma bulk_update:
  "foldl bulk_step b (update_events on hz) = Reading"
  "fills_find_bulk_idle b (update_events on hz)"
  by (cases b; simp add: update_events_def transfer_events_def)+

lemma update_events_start:
  "update_events True hz =
     [Pio_sm_set_clkdiv PARALLEL_PD_SM (clk_div hz),
      Dma_channel_wait_for_finish_blocking PD_ST_DMA,
      Pio_wait_tx_fifo_empty PARALLEL_PD_SM,
      Backbuffer_fill] @
     ([Gpio_put DC False, Gpio_put CS False] @ transfer_events [RAMWR] 1 @
      [Gpio_put DC True,
       Dma_channel_set_trans_count PD_ST_DMA (160 * 240) False,
       Dma_channel_set_read_addr PD_ST_DMA Backbuffer_addr True])"
  "Backbuffer_fill \<notin> set ([Gpio_put DC False, Gpio_put CS False] @ transfer_events [RAMWR] 1 @
      [Gpio_put DC True,
       Dma_channel_set_trans_count PD_ST_DMA (160 * 240) False,
       Dma_channel_set_read_addr PD_ST_DMA Backbuffer_addr True])"
  by (simp_all add: update_events_def transfer_events_def)

section \<open>The claims\<close>

text \<open>
  C1. For every source pixel, \<^verbatim>\<open>update()\<close> stores the 16-bit value
  \<open>((R & 0xF8) << 8) | ((G & 0xFC) << 3) | (B >> 3)\<close> of its channel bytes into the
  back-buffer twice: for source row \<open>y\<close> and column \<open>x\<close>, at rows \<open>2y\<close> and \<open>2y + 1\<close>
  of the back-buffer, that is at an offset and at that offset plus the width. The loop
  stays inside both arrays whenever the framebuffer holds 160 by 120 four-byte pixels and
  the back-buffer has its declared size.
\<close>

theorem update_converts_and_doubles_rows:
  fixes fb :: "u8 list" and x y :: nat
  defines "R \<equiv> fb ! (4 * (y * width + x))"
      and "G \<equiv> fb ! (4 * (y * width + x) + 1)"
      and "B \<equiv> fb ! (4 * (y * width + x) + 2)"
  assumes "4 * width * height \<le> length fb" "backbuffer_size \<le> length (backbuffer s)"
      and "y < height" "x < width"
  shows "\<exists>s'. update fb hz s = Some s' \<and>
           unat (backbuffer s' ! (2 * y * width + x)) =
             push_bit 8 (unat R AND 0xF8) OR push_bit 3 (unat G AND 0xFC) OR drop_bit 3 (unat B) \<and>
           backbuffer s' ! (2 * y * width + x + width) = backbuffer s' ! (2 * y * width + x) \<and>
           backbuffer s' ! ((2 * y + 1) * width + x) = backbuffer s' ! (2 * y * width + x)"
proof -
  from update_result [OF assms(4,5), of hz] obtain bb where
    u: "update fb hz s =
          Some (s\<lparr>display_on := True, backbuffer := bb,
                  trace := trace s @ update_events (display_on s) hz\<rparr>)"
    and c: "\<forall>y x. y < height \<longrightarrow> x < width \<longrightarrow>
              bb ! (2 * y * width + x) = px fb (4 * (y * width + x)) \<and>
              bb ! ((2 * y + 1) * width + x) = px fb (4 * (y * width + x))"
    by blast
  from c assms(6,7) have p:
    "bb ! (2 * y * width + x) = rgb565 R G B" "bb ! ((2 * y + 1) * width + x) = rgb565 R G B"
    by (simp_all add: px_def R_def G_def B_def)
  have e: "2 * y * width + x + width = (2 * y + 1) * width + x"
    by (simp add: algebra_simps)
  show ?thesis
    using u p by (simp add: unat_rgb565 e)
qed

text \<open>A framebuffer of solid red, bytes \<open>(255, 0, 0, 0)\<close>, gives \<open>0xF800\<close> at pixel (5, 7).\<close>

theorem update_converts_and_doubles_rows_witness:
  "\<exists>s'. update (map (\<lambda>i. if i mod 4 = 0 then 0xFF else 0) [0..<76800]) 125000000
           (fresh False False) = Some s' \<and>
        unat (backbuffer s' ! (2 * 7 * width + 5)) = 0xF800 \<and>
        backbuffer s' ! (2 * 7 * width + 5 + width) = backbuffer s' ! (2 * 7 * width + 5) \<and>
        backbuffer s' ! ((2 * 7 + 1) * width + 5) = backbuffer s' ! (2 * 7 * width + 5)"
proof -
  let ?fb = "map (\<lambda>i. if i mod 4 = 0 then 0xFF else (0::u8)) [0..<76800]"
  have h: "4 * width * height \<le> length ?fb"
          "backbuffer_size \<le> length (backbuffer (fresh False False))"
          "7 < height" "5 < width"
    by (simp_all add: width_def height_def fresh_def)
  have v: "push_bit 8 (unat (0xFF::u8) AND 0xF8) OR push_bit 3 (unat (0::u8) AND 0xFC) OR
             drop_bit 3 (unat (0::u8)) = (0xF800::nat)"
    by simp
  have n: "?fb ! (4 * (7 * width + 5)) = 0xFF"
          "?fb ! (4 * (7 * width + 5) + 1) = 0"
          "?fb ! (4 * (7 * width + 5) + 2) = 0"
    by (simp_all add: width_def)
  from update_converts_and_doubles_rows [OF h, of 125000000]
  show ?thesis by (simp only: n v)
qed

text \<open>
  C3. \<^verbatim>\<open>set_backlight\<close> writes the duty level and then: (1) when the brightness is 0
  and \<open>display_sleep\<close> is false, it sends the leave-sleep opcode \<open>SLPOUT\<close>, waits 5 ms
  and sets \<open>display_sleep\<close>; (2) otherwise, when \<open>display_sleep\<close> is true, whatever the
  brightness, it sends \<open>SLPOUT\<close>, waits 120 ms and clears \<open>display_sleep\<close>; in the
  remaining case the flag is unchanged and the PWM write is the only event.
\<close>

theorem set_backlight_sleep_policy:
  "set_backlight gam b s =
     (if b = 0 \<and> \<not> display_sleep s then
        s\<lparr>display_sleep := True, bl_level := gam b,
          trace := trace s @ Pwm_set_gpio_level BL (gam b) #
                     command_events SLPOUT 0 None @ [Sleep_ms 5]\<rparr>
      else if display_sleep s then
        s\<lparr>display_sleep := False, bl_level := gam b,
          trace := trace s @ Pwm_set_gpio_level BL (gam b) #
                     command_events SLPOUT 0 None @ [Sleep_ms 120]\<rparr>
      else
        s\<lparr>bl_level := gam b, trace := trace s @ [Pwm_set_gpio_level BL (gam b)]\<rparr>)"
  by (simp add: set_backlight_eq set_backlight_events_def)

theorem set_backlight_sleep_policy_witness:
  "display_sleep (set_backlight (\<lambda>b. if b = 0 then 0 else 65535) 0 (fresh True False)) \<and>
   command_opcodes (trace (set_backlight (\<lambda>b. if b = 0 then 0 else 65535) 0 (fresh True False)))
     = [SLPOUT] \<and>
   \<not> display_sleep (set_backlight (\<lambda>b. if b = 0 then 0 else 65535) 9 (fresh True True)) \<and>
   trace (set_backlight (\<lambda>b. if b = 0 then 0 else 65535) 9 (fresh True True)) =
     Pwm_set_gpio_level BL 65535 # command_events SLPOUT 0 None @ [Sleep_ms 120] \<and>
   set_backlight (\<lambda>b. if b = 0 then 0 else 65535) 9 (fresh True False) =
     (fresh True False)\<lparr>bl_level := 65535, trace := [Pwm_set_gpio_level BL 65535]\<rparr>"
  using set_backlight_sleep_policy [of "\<lambda>b. if b = 0 then 0 else 65535" 0 "fresh True False"]
        set_backlight_sleep_policy [of "\<lambda>b. if b = 0 then 0 else 65535" 9 "fresh True True"]
        set_backlight_sleep_policy [of "\<lambda>b. if b = 0 then 0 else 65535" 9 "fresh True False"]
  by (simp add: fresh_def command_events_def transfer_events_def)

text \<open>
  C10. With \<open>display_sleep\<close> already true, \<^verbatim>\<open>set_backlight(0)\<close> sends \<open>SLPOUT\<close>, waits
  120 ms and clears \<open>display_sleep\<close>, the duty level being 0; so two calls of
  \<^verbatim>\<open>set_backlight(0)\<close> in a row from the awake state set the flag and clear it again.
  The duty level for brightness 0 is 0: \<^verbatim>\<open>pow\<close> of zero is zero, and
  \<^verbatim>\<open>0.5f\<close> narrows to 0.
\<close>

theorem set_backlight_zero_when_asleep_wakes:
  assumes "gam 0 = 0"
  shows "(display_sleep s \<longrightarrow>
            set_backlight gam 0 s =
              s\<lparr>display_sleep := False, bl_level := 0,
                trace := trace s @ Pwm_set_gpio_level BL 0 #
                           command_events SLPOUT 0 None @ [Sleep_ms 120]\<rparr>) \<and>
         (\<not> display_sleep s \<longrightarrow>
            display_sleep (set_backlight gam 0 s) \<and>
            \<not> display_sleep (set_backlight gam 0 (set_backlight gam 0 s)) \<and>
            bl_level (set_backlight gam 0 (set_backlight gam 0 s)) = 0 \<and>
            events_since s (set_backlight gam 0 (set_backlight gam 0 s)) =
              Pwm_set_gpio_level BL 0 # command_events SLPOUT 0 None @ [Sleep_ms 5] @
              Pwm_set_gpio_level BL 0 # command_events SLPOUT 0 None @ [Sleep_ms 120])"
  using assms by (simp add: set_backlight_eq set_backlight_events_def events_since_def)

theorem set_backlight_zero_when_asleep_wakes_witness:
  "set_backlight (\<lambda>b. if b = 0 then 0 else 65535) 0 (fresh True True) =
     (fresh True True)\<lparr>display_sleep := False, bl_level := 0,
        trace := Pwm_set_gpio_level BL 0 # command_events SLPOUT 0 None @ [Sleep_ms 120]\<rparr> \<and>
   display_sleep (set_backlight (\<lambda>b. if b = 0 then 0 else 65535) 0 (fresh True False)) \<and>
   \<not> display_sleep
       (set_backlight (\<lambda>b. if b = 0 then 0 else 65535) 0
         (set_backlight (\<lambda>b. if b = 0 then 0 else 65535) 0 (fresh True False)))"
  using set_backlight_zero_when_asleep_wakes
          [of "\<lambda>b. if b = 0 then 0 else 65535" "fresh True True"]
        set_backlight_zero_when_asleep_wakes
          [of "\<lambda>b. if b = 0 then 0 else 65535" "fresh True False"]
  by (simp add: fresh_def)




text \<open>
  C2, as amended. The back-buffer holds 160 by 240, that is 38400, 16-bit pixels, not
  320 by 240; the one transfer count \<^verbatim>\<open>update()\<close> sets on the bulk channel is that
  number, the whole back-buffer, and the transfer is triggered by the read address set
  right after it, at the end of the call.
\<close>

theorem update_bulk_count_is_backbuffer_size:
  assumes "4 * width * height \<le> length fb" "length (backbuffer s) = backbuffer_size"
  shows "\<exists>s'. update fb hz s = Some s' \<and>
           length (backbuffer s') = 160 * 240 \<and>
           bulk_trans_counts (events_since s s') = [length (backbuffer s')] \<and>
           (\<exists>pre. events_since s s' =
              pre @ [Dma_channel_set_trans_count PD_ST_DMA (length (backbuffer s')) False,
                     Dma_channel_set_read_addr PD_ST_DMA Backbuffer_addr True])"
proof -
  have b: "backbuffer_size \<le> length (backbuffer s)" using assms(2) by simp
  from update_result [OF assms(1) b, of hz] obtain bb where
    l: "length bb = length (backbuffer s)"
    and u: "update fb hz s =
          Some (s\<lparr>display_on := True, backbuffer := bb,
                  trace := trace s @ update_events (display_on s) hz\<rparr>)"
    by blast
  have n: "length bb = 160 * 240" using l assms(2) by (simp add: backbuffer_size_def)
  let ?s' = "s\<lparr>display_on := True, backbuffer := bb,
                  trace := trace s @ update_events (display_on s) hz\<rparr>"
  have e: "events_since s ?s' = update_events (display_on s) hz" by simp
  have c: "bulk_trans_counts (events_since s ?s') = [length (backbuffer ?s')]"
    by (simp only: e bulk_trans_counts_update) (simp add: n)
  have "\<exists>pre. events_since s ?s' =
              pre @ [Dma_channel_set_trans_count PD_ST_DMA (length (backbuffer ?s')) False,
                     Dma_channel_set_read_addr PD_ST_DMA Backbuffer_addr True]"
    using update_events_end [of "display_on s" hz] by (simp only: e) (simp add: n)
  with u n c show ?thesis by simp
qed

theorem update_bulk_count_is_backbuffer_size_witness:
  "\<exists>s'. update (replicate 76800 0) 125000000 (fresh False False) = Some s' \<and>
        length (backbuffer s') = 38400 \<and>
        bulk_trans_counts (events_since (fresh False False) s') = [38400]"
proof -
  have h: "4 * width * height \<le> length (replicate 76800 (0::u8))"
          "length (backbuffer (fresh False False)) = backbuffer_size"
    by (simp_all add: width_def height_def fresh_def)
  from update_bulk_count_is_backbuffer_size [OF h, of 125000000] show ?thesis
    by auto
qed

text \<open>After an \<^verbatim>\<open>update()\<close> of a new driver, neither the length of the back-buffer
  nor the transfer count set on the bulk channel is 320 times 240.\<close>

theorem backbuffer_320_by_240_counterexample:
  "map_option
     (\<lambda>s'. length (backbuffer s') = 320 * 240 \<or>
            bulk_trans_counts (events_since (fresh False False) s') = [320 * 240])
     (update (replicate 76800 0) 125000000 (fresh False False)) = Some False"
proof -
  have h: "4 * width * height \<le> length (replicate 76800 (0::u8))"
          "backbuffer_size \<le> length (backbuffer (fresh False False))"
    by (simp_all add: width_def height_def fresh_def)
  from update_result [OF h, of 125000000] obtain bb where
    l: "length bb = length (backbuffer (fresh False False))"
    and u: "update (replicate 76800 0) 125000000 (fresh False False) =
          Some ((fresh False False)\<lparr>display_on := True, backbuffer := bb,
                  trace := trace (fresh False False) @
                           update_events (display_on (fresh False False)) 125000000\<rparr>)"
    by blast
  have n: "length bb = 38400" using l by (simp add: fresh_def backbuffer_size_def)
  show ?thesis by (simp add: u n bulk_trans_counts_update)
qed

text \<open>
  C6, as amended. \<^verbatim>\<open>init\<close> ends, in this order: display on, a 100 ms delay, the
  column-address window 0 to 319 and the row-address window 0 to 239, each bound sent as a
  big-endian pair of bytes, then the memory-access-control byte \<open>0xB0\<close> (row order, XY
  swap, scan order), then one \<^verbatim>\<open>update()\<close>, then \<^verbatim>\<open>set_backlight(255)\<close>. The
  orientation byte follows the two windows; it does not precede them.
\<close>

theorem init_final_steps:
  assumes "4 * width * height \<le> length fb" "backbuffer_size \<le> length (backbuffer s)"
  shows "\<exists>s' pre s1 s2.
           init gam fb hz s = Some s' \<and>
           trace s1 = trace s @ pre @
             command_events DISPON 0 None @ [Sleep_ms 100] @
             command_events CASET 4 (Some (be_bytes 0 @ be_bytes 319)) @
             command_events RASET 4 (Some (be_bytes 0 @ be_bytes 239)) @
             command_events MADCTL 1 (Some [ROW_ORDER OR SWAP_XY OR SCAN_ORDER]) \<and>
           update fb hz s1 = Some s2 \<and>
           s' = set_backlight gam 255 s2 \<and>
           bl_level s' = gam 255"
proof -
  from init_result [OF assms, where gam = gam and hz = hz] obtain bb where
    u: "update fb hz (before_update gam s) =
             Some ((before_update gam s)\<lparr>display_on := True, backbuffer := bb,
                     trace := trace (before_update gam s) @ update_events (display_on s) hz\<rparr>)"
    by blast
  let ?s2 = "(before_update gam s)\<lparr>display_on := True, backbuffer := bb,
                     trace := trace (before_update gam s) @ update_events (display_on s) hz\<rparr>"
  have i: "init gam fb hz s = Some (set_backlight gam 255 ?s2)"
    using u by (simp add: init_eq)
  have t: "trace (before_update gam s) = trace s @
             (setup_events @ set_backlight_events gam 0 (display_sleep s) @ register_events) @
             command_events DISPON 0 None @ [Sleep_ms 100] @
             command_events CASET 4 (Some (be_bytes 0 @ be_bytes 319)) @
             command_events RASET 4 (Some (be_bytes 0 @ be_bytes 239)) @
             command_events MADCTL 1 (Some [ROW_ORDER OR SWAP_XY OR SCAN_ORDER])"
    by (simp add: before_update_def window_events_def be_bytes_window window_payloads)
  have l: "bl_level (set_backlight gam 255 ?s2) = gam 255"
    by (simp add: set_backlight_eq)
  from i t u l show ?thesis by blast
qed

theorem init_final_steps_witness:
  "\<exists>s'. init (\<lambda>b. if b = 0 then 0 else 65535) (replicate 76800 0) 125000000
           (fresh False False) = Some s' \<and> bl_level s' = 65535"
proof -
  have h: "4 * width * height \<le> length (replicate 76800 (0::u8))"
          "backbuffer_size \<le> length (backbuffer (fresh False False))"
    by (simp_all add: width_def height_def fresh_def)
  from init_final_steps [OF h, where gam = "\<lambda>b. if b = 0 then 0 else 65535" and hz = 125000000]
  show ?thesis by auto
qed

text \<open>Among the commands \<^verbatim>\<open>init\<close> enters, \<open>CASET\<close> comes before the first
  \<open>MADCTL\<close>.\<close>

theorem init_orientation_before_window_counterexample:
  "map_option (\<lambda>s'. first_before MADCTL CASET (command_opcodes (trace s')))
     (init (\<lambda>b. if b = 0 then 0 else 65535) (replicate 76800 0) 125000000
        (fresh False False)) = Some False"
proof -
  have h: "4 * width * height \<le> length (replicate 76800 (0::u8))"
          "backbuffer_size \<le> length (backbuffer (fresh False False))"
    by (simp_all add: width_def height_def fresh_def)
  from init_result [OF h, where gam = "\<lambda>b. if b = 0 then 0 else 65535" and hz = 125000000] obtain s' where
    i: "init (\<lambda>b. if b = 0 then 0 else 65535) (replicate 76800 0) 125000000
          (fresh False False) = Some s'"
    by blast
  have "command_opcodes (trace s') =
     [SLPOUT] @
     [SWRESET, TEON, COLMOD, PORCTRL, LCMCTRL, VDVVRHEN, VRHS, VDVS, PWCTRL1, FRCTRL2,
      RAMCTRL, GCTRL, VCOMS, GMCTRP1, GMCTRN1, INVON, SLPOUT] @
     [DISPON, CASET, RASET, MADCTL] @ [DISPON] @ [SLPOUT]"
    by (simp add: init_SomeD(4) [OF i] command_opcodes_init_parts command_opcodes_update
          command_opcodes_set_backlight fresh_def)
  then have "\<not> first_before MADCTL CASET (command_opcodes (trace s'))"
    by (simp add: reg_defs)
  with i show ?thesis by simp
qed

text \<open>
  C9. With the duty level for brightness 0 being 0, every state \<^verbatim>\<open>init\<close> returns, and
  every state reached from there by \<^verbatim>\<open>init\<close>, \<^verbatim>\<open>update\<close> and
  \<^verbatim>\<open>set_backlight\<close>, has a duty level of 0 whenever \<open>display_sleep\<close> is true; each of
  the three operations keeps that implication.
\<close>

theorem sleep_implies_backlight_off:
  assumes "gam 0 = 0"
  shows "(reachable gam s \<longrightarrow> sleep_implies_dark s) \<and>
         (sleep_implies_dark t \<longrightarrow> init gam fb hz t = Some t' \<longrightarrow> sleep_implies_dark t') \<and>
         (sleep_implies_dark t \<longrightarrow> update fb hz t = Some t' \<longrightarrow> sleep_implies_dark t') \<and>
         (sleep_implies_dark t \<longrightarrow> sleep_implies_dark (set_backlight gam b t))"
proof -
  have i: "sleep_implies_dark u'" if "init gam fb' hz' u = Some u'" for fb' hz' u u'
    using init_SomeD(1) [OF that] by (simp add: sleep_implies_dark_def)
  have u: "sleep_implies_dark u'" if "sleep_implies_dark u" "update fb' hz' u = Some u'"
    for fb' hz' u u'
    using that(1) update_SomeD(4,5) [OF that(2)] by (simp add: sleep_implies_dark_def)
  have b: "sleep_implies_dark (set_backlight gam b' u)" for b' u
    using assms by (auto simp add: sleep_implies_dark_def set_backlight_eq)
  have "sleep_implies_dark s" if "reachable gam s"
    using that
  proof (induction rule: reachable.induct)
    case (after_init fb hz s s')
    then show ?case by (rule i)
  next
    case (after_reinit s fb hz s')
    then show ?case using i by blast
  next
    case (after_update s fb hz s')
    then show ?case using u by blast
  next
    case (after_set_backlight s b)
    show ?case by (rule b)
  qed
  with i u b show ?thesis by blast
qed

theorem sleep_implies_backlight_off_witness:
  "reachable (\<lambda>b. if b = 0 then 0 else 65535)
     (set_backlight (\<lambda>b. if b = 0 then 0 else 65535) 0
        (the (init (\<lambda>b. if b = 0 then 0 else 65535) (replicate 76800 0) 125000000
                (fresh False False)))) \<and>
   display_sleep
     (set_backlight (\<lambda>b. if b = 0 then 0 else 65535) 0
        (the (init (\<lambda>b. if b = 0 then 0 else 65535) (replicate 76800 0) 125000000
                (fresh False False)))) \<and>
   sleep_implies_dark
     (set_backlight (\<lambda>b. if b = 0 then 0 else 65535) 0
        (the (init (\<lambda>b. if b = 0 then 0 else 65535) (replicate 76800 0) 125000000
                (fresh False False))))"
proof -
  let ?g = "\<lambda>b::u8. if b = 0 then 0 else (65535::u16)"
  have h: "4 * width * height \<le> length (replicate 76800 (0::u8))"
          "backbuffer_size \<le> length (backbuffer (fresh False False))"
    by (simp_all add: width_def height_def fresh_def)
  from init_result [OF h, where gam = ?g and hz = 125000000] obtain s' where
    i: "init ?g (replicate 76800 0) 125000000 (fresh False False) = Some s'"
    by blast
  have r: "reachable ?g (set_backlight ?g 0 s')"
    by (rule after_set_backlight) (rule after_init [OF i])
  have d: "display_sleep (set_backlight ?g 0 s')"
    using init_SomeD(1) [OF i] by (simp add: set_backlight_eq)
  from sleep_implies_backlight_off [of ?g "set_backlight ?g 0 s'"] r
  have "sleep_implies_dark (set_backlight ?g 0 s')" by simp
  with r d show ?thesis by (simp add: i)
qed




text \<open>
  C5. For two calls of \<^verbatim>\<open>update()\<close> in a row, whatever the bulk path was doing
  before the first: the first call leaves a DMA read of the back-buffer in progress, and
  the second waits for the bulk channel to finish and for the FIFO of the bulk state
  machine to empty before its conversion loop stores into the back-buffer. Every start
  of the conversion loop in the two calls finds the bulk path idle.
\<close>

theorem second_update_waits_for_bulk_read:
  assumes "4 * width * height \<le> length fb1" "4 * width * height \<le> length fb2"
      and "backbuffer_size \<le> length (backbuffer s)"
  shows "\<exists>s1 s2 post.
           update fb1 hz1 s = Some s1 \<and> update fb2 hz2 s1 = Some s2 \<and>
           foldl bulk_step b (events_since s s1) = Reading \<and>
           events_since s1 s2 =
             [Pio_sm_set_clkdiv PARALLEL_PD_SM (clk_div hz2),
              Dma_channel_wait_for_finish_blocking PD_ST_DMA,
              Pio_wait_tx_fifo_empty PARALLEL_PD_SM,
              Backbuffer_fill] @ post \<and>
           Backbuffer_fill \<notin> set post \<and>
           fills_find_bulk_idle b (events_since s s2)"
proof -
  from update_result [OF assms(1,3), of hz1] obtain bb1 where
    l1: "length bb1 = length (backbuffer s)"
    and u1: "update fb1 hz1 s =
          Some (s\<lparr>display_on := True, backbuffer := bb1,
                  trace := trace s @ update_events (display_on s) hz1\<rparr>)"
    by blast
  let ?s1 = "s\<lparr>display_on := True, backbuffer := bb1,
                  trace := trace s @ update_events (display_on s) hz1\<rparr>"
  have b1: "backbuffer_size \<le> length (backbuffer ?s1)" using l1 assms(3) by simp
  from update_result [OF assms(2) b1, of hz2] obtain s2 where
    u2: "update fb2 hz2 ?s1 = Some s2" by blast
  have e1: "events_since s ?s1 = update_events (display_on s) hz1" by simp
  have e2: "events_since ?s1 s2 = update_events True hz2"
    using update_SomeD(1) [OF u2] by simp
  have e12: "events_since s s2 = update_events (display_on s) hz1 @ update_events True hz2"
    using update_SomeD(2) [OF u2] by (simp add: events_since_def)
  have "foldl bulk_step b (events_since s ?s1) = Reading"
    by (simp only: e1 bulk_update)
  moreover have "fills_find_bulk_idle b (events_since s s2)"
    by (simp only: e12 fills_find_bulk_idle_append bulk_update simp_thms)
  moreover note u1 u2 update_events_start(1) [of hz2] update_events_start(2) e2
  ultimately show ?thesis by (metis (no_types, lifting))
qed

theorem second_update_waits_for_bulk_read_witness:
  "\<exists>s1 s2. update (replicate 76800 0xFF) 125000000 (fresh False False) = Some s1 \<and>
           update (replicate 76800 0) 125000000 s1 = Some s2 \<and>
           fills_find_bulk_idle Reading (events_since (fresh False False) s2)"
proof -
  have h: "4 * width * height \<le> length (replicate 76800 (0xFF::u8))"
          "4 * width * height \<le> length (replicate 76800 (0::u8))"
          "backbuffer_size \<le> length (backbuffer (fresh False False))"
    by (simp_all add: width_def height_def fresh_def)
  from second_update_waits_for_bulk_read [OF h, of 125000000 125000000 Reading]
  show ?thesis by blast
qed

end
